theory Spec2Isabelle
  imports Main "HOL-Library.Word"
begin

unbundle bit_operations_syntax

section \<open>The allocator of \<open>malloc_free.c\<close>\<close>

text \<open>
  The development embeds the final versions of \<open>malloc\<close>, \<open>get_free_block\<close> and \<open>free\<close>
  (lines 79-171 of \<open>malloc_free.c\<close>) together with the \<open>union header\<close> they work on.

  Conventions of the embedding.
  \<^item> Addresses and \<open>size_t\<close> values are 64-bit words (an LP64 platform, the usual host of
    \<open>sbrk\<close> and \<open>pthread\<close> code); every addition and subtraction wraps as in C.
  \<^item> Memory is an array of bytes, one for every address. A header is the 24 bytes from its
    address on, in little-endian order: \<open>size\<close> in bytes 0 to 7, \<open>is_free\<close> in bytes 8 to 11,
    \<open>next\<close> in bytes 16 to 23. Each assignment to a member writes the bytes of that member
    and nothing else, so a write to one header changes every header that shares the bytes.
  \<^item> A pointer that may be \<open>NULL\<close> is an \<open>addr option\<close>, \<open>None\<close> being \<open>NULL\<close>; in memory
    \<open>NULL\<close> is the word 0. The failure value \<open>(void * ) -1\<close> of \<open>sbrk\<close> is \<open>None\<close> as well.
  \<^item> A loop that may run forever (a cyclic \<open>next\<close> chain) is a partial function into
    \<open>option\<close>: \<open>None\<close> stands for a call that does not return.
  \<^item> The file does not compile as it stands (\<open>malloc\<close> is declared \<open>void\<close> and returns a
    pointer, line 126 declares \<open>head_ *curr\<close>, line 131 reads \<open>curr->next\<close>). The embedding
    reads these as \<open>void *\<close>, \<open>header_t *curr\<close> and \<open>curr->s.next\<close>, and changes nothing else.
\<close>

subsection \<open>Data\<close>

type_synonym addr = "64 word"
type_synonym size_t = "64 word"

text \<open>The struct \<open>s\<close> inside \<open>union header\<close> (lines 64-71), as a value.\<close>

record header_t =
  s_size :: size_t
  s_is_free :: "32 word"
  s_next :: "addr option"

text \<open>
  The globals \<open>head\<close>, \<open>tail\<close> (line 73) and \<open>global_malloc_lock\<close> (line 76), the bytes of
  memory, and the program break owned by the operating system. \<open>brk_limit\<close> is the highest
  break the system grants; \<open>lock_count\<close> counts the calls of \<open>pthread_mutex_lock\<close>.
\<close>

record heap =
  brk :: addr
  brk_limit :: addr
  head :: "addr option"
  tail :: "addr option"
  bytes :: "addr \<Rightarrow> 8 word"
  lock_held :: bool
  lock_count :: nat

subsection \<open>Object sizes\<close>

text \<open>
  Sizes of the LP64 data model: \<open>size_t\<close> and pointers take 8 bytes, \<open>unsigned\<close> takes 4,
  and every scalar is aligned to its size. A struct places each member at the next
  multiple of the member's alignment and is padded to its largest alignment; a union is
  as large as its largest member, padded likewise. \<open>ALIGN\<close> is \<open>char[16]\<close> (line 55).
\<close>

definition align_up :: "nat \<Rightarrow> nat \<Rightarrow> nat" where
  "align_up n a = ((n + a - 1) div a) * a"

definition sizeof_size_t :: nat where "sizeof_size_t = 8"
definition sizeof_unsigned :: nat where "sizeof_unsigned = 4"
definition sizeof_pointer :: nat where "sizeof_pointer = 8"
definition sizeof_ALIGN :: nat where "sizeof_ALIGN = 16"

definition alignof_s :: nat where
  "alignof_s = max sizeof_size_t (max sizeof_unsigned sizeof_pointer)"

definition offsetof_is_free :: nat where
  "offsetof_is_free = align_up sizeof_size_t sizeof_unsigned"

definition offsetof_next :: nat where
  "offsetof_next = align_up (offsetof_is_free + sizeof_unsigned) sizeof_pointer"

definition sizeof_s :: nat where
  "sizeof_s = align_up (offsetof_next + sizeof_pointer) alignof_s"

text \<open>\<open>sizeof(header_t)\<close>, the size of the union, and \<open>sizeof(head_)\<close>, the size of a
  variable of type \<open>header_t *\<close> (line 82).\<close>

definition sizeof_header_t :: "64 word" where
  "sizeof_header_t = of_nat (align_up (max sizeof_s sizeof_ALIGN) alignof_s)"

definition sizeof_head_var :: "64 word" where
  "sizeof_head_var = of_nat sizeof_pointer"

subsection \<open>Bytes and members\<close>

text \<open>
  An 8-byte and a 4-byte object at address \<open>a\<close>, least significant byte first. A store
  changes the bytes \<open>a\<close> to \<open>a + 7\<close> (to \<open>a + 3\<close>), addresses taken modulo \<open>2^64\<close>.
\<close>

definition store64 :: "(addr \<Rightarrow> 8 word) \<Rightarrow> addr \<Rightarrow> 64 word \<Rightarrow> (addr \<Rightarrow> 8 word)" where
  "store64 m a v = (\<lambda>x. if x - a < 8 then ucast (drop_bit (8 * unat (x - a)) v) else m x)"

definition load64 :: "(addr \<Rightarrow> 8 word) \<Rightarrow> addr \<Rightarrow> 64 word" where
  "load64 m a =
     ucast (m a) OR push_bit 8 (ucast (m (a + 1))) OR push_bit 16 (ucast (m (a + 2))) OR
     push_bit 24 (ucast (m (a + 3))) OR push_bit 32 (ucast (m (a + 4))) OR
     push_bit 40 (ucast (m (a + 5))) OR push_bit 48 (ucast (m (a + 6))) OR
     push_bit 56 (ucast (m (a + 7)))"

definition store32 :: "(addr \<Rightarrow> 8 word) \<Rightarrow> addr \<Rightarrow> 32 word \<Rightarrow> (addr \<Rightarrow> 8 word)" where
  "store32 m a v = (\<lambda>x. if x - a < 4 then ucast (drop_bit (8 * unat (x - a)) v) else m x)"

definition load32 :: "(addr \<Rightarrow> 8 word) \<Rightarrow> addr \<Rightarrow> 32 word" where
  "load32 m a =
     ucast (m a) OR push_bit 8 (ucast (m (a + 1))) OR push_bit 16 (ucast (m (a + 2))) OR
     push_bit 24 (ucast (m (a + 3)))"

text \<open>A pointer in memory: \<open>NULL\<close> is the word 0.\<close>

definition ptr_word :: "addr option \<Rightarrow> 64 word" where
  "ptr_word p = (case p of None \<Rightarrow> 0 | Some a \<Rightarrow> a)"

definition word_ptr :: "64 word \<Rightarrow> addr option" where
  "word_ptr w = (if w = 0 then None else Some w)"

text \<open>
  \<open>mem st h\<close> is the header read at address \<open>h\<close>: \<open>h->s.size\<close> is \<open>s_size (mem st h)\<close>,
  and likewise for the other members. The three assignments write one member each.
\<close>

definition mem :: "heap \<Rightarrow> addr \<Rightarrow> header_t" where
  "mem st h =
     \<lparr>s_size = load64 (bytes st) h,
      s_is_free = load32 (bytes st) (h + of_nat offsetof_is_free),
      s_next = word_ptr (load64 (bytes st) (h + of_nat offsetof_next))\<rparr>"

definition set_size :: "addr \<Rightarrow> size_t \<Rightarrow> heap \<Rightarrow> heap" where
  "set_size h v st = st\<lparr>bytes := store64 (bytes st) h v\<rparr>"

definition set_is_free :: "addr \<Rightarrow> 32 word \<Rightarrow> heap \<Rightarrow> heap" where
  "set_is_free h v st = st\<lparr>bytes := store32 (bytes st) (h + of_nat offsetof_is_free) v\<rparr>"

definition set_next :: "addr \<Rightarrow> addr option \<Rightarrow> heap \<Rightarrow> heap" where
  "set_next h p st =
     st\<lparr>bytes := store64 (bytes st) (h + of_nat offsetof_next) (ptr_word p)\<rparr>"

subsection \<open>The collaborators: \<open>sbrk\<close> and the mutex\<close>

text \<open>
  Modelled from the spec: \<open>sbrk\<close> is the hosting environment's primitive
  \<open>adjust_break(delta)\<close>; its code is not part of the repository. It returns the previous
  break or a failure sentinel; a zero delta is a pure query, a positive delta extends the
  heap, a negative delta contracts it. The argument is an \<open>intptr_t\<close>, so the word is read
  as signed. An extension beyond \<open>brk_limit\<close> is the failure (insufficient address space);
  a query and a contraction always succeed.
\<close>

definition sbrk :: "64 word \<Rightarrow> heap \<Rightarrow> addr option \<times> heap" where
  "sbrk incr st =
     (if sint incr \<le> 0 then (Some (brk st), st\<lparr>brk := brk st + incr\<rparr>)
      else if uint (brk st) + sint incr \<le> uint (brk_limit st)
        then (Some (brk st), st\<lparr>brk := brk st + incr\<rparr>)
        else (None, st))"

definition pthread_mutex_lock :: "heap \<Rightarrow> heap" where
  "pthread_mutex_lock st = st\<lparr>lock_held := True, lock_count := Suc (lock_count st)\<rparr>"

definition pthread_mutex_unlock :: "heap \<Rightarrow> heap" where
  "pthread_mutex_unlock st = st\<lparr>lock_held := False\<rparr>"

subsection \<open>\<open>get_free_block\<close> (lines 125-134)\<close>

partial_function (option) get_free_block_loop ::
  "heap \<Rightarrow> size_t \<Rightarrow> addr option \<Rightarrow> addr option option" where
  "get_free_block_loop st sz curr' =
     (case curr' of
        None \<Rightarrow> Some None
      | Some c \<Rightarrow>
          if s_is_free (mem st c) \<noteq> 0 \<and> sz \<le> s_size (mem st c) then Some (Some c)
          else get_free_block_loop st sz (s_next (mem st c)))"

declare get_free_block_loop.simps [code]

definition get_free_block :: "size_t \<Rightarrow> heap \<Rightarrow> addr option option" where
  "get_free_block sz st = get_free_block_loop st sz (head st)"

subsection \<open>\<open>malloc\<close> (lines 79-123)\<close>

text \<open>The result pairs the returned pointer with the state after the call.\<close>

definition malloc :: "size_t \<Rightarrow> heap \<Rightarrow> (addr option \<times> heap) option" where
  "malloc sz st =
     (if sz = 0 then Some (None, st)
      else
        let st1 = pthread_mutex_lock st in
        case get_free_block sz st1 of
          None \<Rightarrow> None
        | Some (Some h) \<Rightarrow>
            let st2 = set_is_free h 0 st1
            in Some (Some (h + sizeof_header_t), pthread_mutex_unlock st2)
        | Some None \<Rightarrow>
            let total_sz = sizeof_head_var + sz in
            (case sbrk total_sz st1 of
               (None, st2) \<Rightarrow> Some (None, pthread_mutex_unlock st2)
             | (Some block, st2) \<Rightarrow>
                 let h = block;
                     st3 = set_next h None (set_is_free h 0 (set_size h sz st2));
                     st4 = (if head st3 = None then st3\<lparr>head := Some h\<rparr> else st3);
                     st5 = (case tail st4 of
                              None \<Rightarrow> st4
                            | Some t \<Rightarrow> set_next t (Some h) st4);
                     st6 = st5\<lparr>tail := Some h\<rparr>
                 in Some (Some (h + sizeof_header_t), pthread_mutex_unlock st6)))"

subsection \<open>\<open>free\<close> (lines 141-171)\<close>

text \<open>The \<open>while (tmp)\<close> loop of lines 157-163.\<close>

partial_function (option) free_loop :: "heap \<Rightarrow> addr option \<Rightarrow> heap option" where
  "free_loop st tmp =
     (case tmp of
        None \<Rightarrow> Some st
      | Some t \<Rightarrow>
          if s_next (mem st t) = tail st then
            let st' = (set_next t None st)\<lparr>tail := Some t\<rparr>
            in free_loop st' (s_next (mem st' t))
          else free_loop st (s_next (mem st t)))"

declare free_loop.simps [code]

definition free :: "addr option \<Rightarrow> heap \<Rightarrow> heap option" where
  "free block st =
     (case block of
        None \<Rightarrow> Some st
      | Some b \<Rightarrow>
          let st1 = pthread_mutex_lock st;
              header = b - sizeof_header_t;
              (programbreak, st2) = sbrk 0 st1
          in
          if Some (b + s_size (mem st2 header)) = programbreak then
            (case (if head st2 = tail st2 then Some (st2\<lparr>head := None, tail := None\<rparr>)
                   else free_loop st2 (head st2)) of
               None \<Rightarrow> None
             | Some st3 \<Rightarrow>
                 let (r, st4) = sbrk (0 - sizeof_header_t - s_size (mem st3 header)) st3
                 in Some (pthread_mutex_unlock st4))
          else
            Some (pthread_mutex_unlock (set_is_free header 1 st2)))"

subsection \<open>Sequences of calls\<close>

text \<open>
  A client is a sequence of calls. \<open>run\<close> performs them in order and keeps, beside the
  allocator's state, the blocks that are live: a block is the pointer a \<open>malloc\<close> returned
  with the size that was asked for, and it is live until \<open>free\<close> is called on the pointer.
  \<open>None\<close> is a run in which some call does not return.
\<close>

datatype call = Malloc size_t | Free "addr option"

type_synonym block = "addr \<times> size_t"

fun run :: "call list \<Rightarrow> heap \<times> block list \<Rightarrow> (heap \<times> block list) option" where
  "run [] s = Some s"
| "run (Malloc n # cs) (st, live) =
     (case malloc n st of
        None \<Rightarrow> None
      | Some (None, st') \<Rightarrow> run cs (st', live)
      | Some (Some p, st') \<Rightarrow> run cs (st', live @ [(p, n)]))"
| "run (Free p # cs) (st, live) =
     (case free p st of
        None \<Rightarrow> None
      | Some st' \<Rightarrow> run cs (st', filter (\<lambda>b. Some (fst b) \<noteq> p) live))"

text \<open>The payload of a block \<open>(p, n)\<close> is the byte range from \<open>p\<close> up to \<open>p + n\<close>.\<close>

definition overlap :: "block \<Rightarrow> block \<Rightarrow> bool" where
  "overlap b c =
     (uint (fst b) < uint (fst c) + uint (snd c) \<and> uint (fst c) < uint (fst b) + uint (snd b))"

text \<open>
  The state at process start: an empty list, the break at the 16-byte aligned address
  \<open>0x1000\<close>, room to grow up to \<open>0x100000\<close>, and zero in every byte.
\<close>

definition heap0 :: heap where
  "heap0 = \<lparr>brk = 0x1000, brk_limit = 0x100000, head = None, tail = None,
            bytes = (\<lambda>a. 0), lock_held = False, lock_count = 0\<rparr>"

text \<open>
  The block list as a sequence: \<open>list_from m p xs\<close> says that following \<open>next\<close> from the
  pointer \<open>p\<close> visits exactly the records \<open>xs\<close> and then reaches \<open>NULL\<close>.
\<close>

fun list_from :: "(addr \<Rightarrow> header_t) \<Rightarrow> addr option \<Rightarrow> addr list \<Rightarrow> bool" where
  "list_from m p [] = (p = None)"
| "list_from m p (x # xs) = (p = Some x \<and> list_from m (s_next (m x)) xs)"


text \<open>The test of line 128: the record at \<open>c\<close> is flagged free and holds \<open>sz\<close> bytes.\<close>

definition fits :: "heap \<Rightarrow> size_t \<Rightarrow> addr \<Rightarrow> bool" where
  "fits st sz c = (s_is_free (mem st c) \<noteq> 0 \<and> sz \<le> s_size (mem st c))"

text \<open>
  Two headers share no byte when their addresses lie at least \<open>sizeof(header_t)\<close> apart in
  both directions (modulo \<open>2^64\<close>); the records of a list are separated when this holds
  for any two of them.
\<close>

definition far :: "addr \<Rightarrow> addr \<Rightarrow> bool" where
  "far x y = (sizeof_header_t \<le> x - y \<and> sizeof_header_t \<le> y - x)"


subsection \<open>Some states\<close>

text \<open>\<open>put_header\<close> writes the three members of the header at \<open>h\<close>.\<close>

definition put_header :: "addr \<Rightarrow> size_t \<Rightarrow> 32 word \<Rightarrow> addr option \<Rightarrow> heap \<Rightarrow> heap" where
  "put_header h sz fr nx st = set_next h nx (set_is_free h fr (set_size h sz st))"

text \<open>\<open>heap_full\<close>: the empty list with no room to grow.\<close>

definition heap_full :: heap where
  "heap_full = heap0\<lparr>brk_limit := 0x1000\<rparr>"

text \<open>
  \<open>heap_free16\<close>: one record at \<open>0x1000\<close>, free, with 16 bytes; the break is \<open>0x1018\<close>.
  These are the headers that \<open>malloc(16)\<close> and \<open>free\<close> of that block leave on \<open>heap0\<close>.
\<close>

definition heap_free16 :: heap where
  "heap_free16 =
     put_header 0x1000 16 1 None
       (heap0\<lparr>brk := 0x1018, head := Some 0x1000, tail := Some 0x1000\<rparr>)"

text \<open>
  \<open>heap_four\<close>: four records, \<open>0x1000\<close> free with 16 bytes, \<open>0x1018\<close> in use with 24 bytes,
  \<open>0x1038\<close> free with 32 bytes and \<open>0x1060\<close> free with 40 bytes; the break is \<open>0x1090\<close>.
  These are the headers that four allocations of 16, 24, 32 and 40 bytes and the
  deallocation of the first, third and fourth block leave on \<open>heap0\<close>.
\<close>

definition heap_four :: heap where
  "heap_four =
     put_header 0x1060 40 1 None
       (put_header 0x1038 32 1 (Some 0x1060)
          (put_header 0x1018 24 0 (Some 0x1038)
             (put_header 0x1000 16 1 (Some 0x1018)
                (heap0\<lparr>brk := 0x1090, head := Some 0x1000, tail := Some 0x1060\<rparr>))))"

section \<open>Evaluation\<close>

lemma sizeof_header_t_eq: "sizeof_header_t = 24"
  by (simp add: sizeof_header_t_def sizeof_s_def offsetof_next_def offsetof_is_free_def
      align_up_def sizeof_size_t_def sizeof_unsigned_def sizeof_pointer_def sizeof_ALIGN_def
      alignof_s_def)

lemma sizeof_head_var_eq: "sizeof_head_var = 8"
  by (simp add: sizeof_head_var_def sizeof_pointer_def)

lemma offsetof_is_free_eq: "offsetof_is_free = 8"
  by (simp add: offsetof_is_free_def align_up_def sizeof_size_t_def sizeof_unsigned_def)

lemma offsetof_next_eq: "offsetof_next = 16"
  by (simp add: offsetof_next_def offsetof_is_free_eq align_up_def sizeof_unsigned_def
      sizeof_pointer_def)

lemma store64_apply:
  "store64 m a v x = (if x - a < 8 then ucast (drop_bit (8 * unat (x - a)) v) else m x)"
  by (simp add: store64_def)

lemma store32_apply:
  "store32 m a v x = (if x - a < 4 then ucast (drop_bit (8 * unat (x - a)) v) else m x)"
  by (simp add: store32_def)

lemmas get_free_block_loop_induct = get_free_block_loop.raw_induct [rotated 1, consumes 1]
lemmas free_loop_induct = free_loop.raw_induct [rotated 1, consumes 1]

lemmas exec_simps =
  malloc_def free_def get_free_block_def get_free_block_loop.simps free_loop.simps
  sbrk_def pthread_mutex_lock_def pthread_mutex_unlock_def heap0_def
  sizeof_header_t_eq sizeof_head_var_eq Let_def
  mem_def set_size_def set_is_free_def set_next_def load64_def load32_def
  store64_apply store32_apply ptr_word_def word_ptr_def offsetof_is_free_eq offsetof_next_eq

lemmas state_defs = heap0_def heap_full_def heap_four_def heap_free16_def put_header_def

section \<open>Requests of size zero and null pointers\<close>

text \<open>
  Claim C9. \<open>malloc(0)\<close> returns \<open>NULL\<close> and \<open>free(NULL)\<close> returns at once; either call
  leaves the whole state as it was: the break, \<open>head\<close>, \<open>tail\<close>, every header, and the
  mutex together with the count of its acquisitions, so the lock was not taken.
\<close>

theorem null_requests_change_nothing:
  "malloc 0 st = Some (None, st) \<and> free None st = Some st"
  by (simp add: malloc_def free_def)

section \<open>Growing the heap\<close>

text \<open>
  Claim C1. The claim asks for a growth of \<open>sizeof(header_t) + size\<close> on a miss. Line 103
  computes \<open>sizeof(head_) + size\<close>, and \<open>head_\<close> is a pointer: on the empty list a request
  of 16 bytes moves the break by \<open>8 + 16 = 24\<close> bytes, where header and payload
  need \<open>24 + 16 = 40\<close>.
\<close>

theorem malloc_grows_by_pointer_size:
  "map_option (\<lambda>(p, st). brk st - brk heap0) (malloc 16 heap0) = Some (sizeof_head_var + 16)
   \<and> sizeof_head_var + 16 = (24 :: 64 word) \<and> sizeof_header_t + 16 = (40 :: 64 word)"
  by (simp add: exec_simps)

text \<open>
  Claim C3. On LP64 the struct takes 24 bytes, so the union with the 16-byte stub takes
  24 bytes as well, which is no multiple of 16. From the aligned break \<open>0x1000\<close> the first
  allocation returns \<open>0x1018\<close>, an address that is 8 modulo 16.
\<close>

theorem first_payload_misaligned:
  "sizeof_header_t = 24 \<and> unat (brk heap0) mod 16 = 0 \<and>
   map_option fst (malloc 16 heap0) = Some (Some 0x1018) \<and> unat (0x1018 :: addr) mod 16 = 8"
  by (simp add: exec_simps)

section \<open>Releasing in reverse order\<close>

text \<open>
  Claim C2. One allocation of 16 bytes on the empty list followed by its deallocation:
  the end of the payload is \<open>0x1018 + 16\<close> while the break is \<open>0x1018\<close>, so \<open>free\<close> takes
  the marking path. The record stays in the list, flagged free, and the break stays
  at \<open>0x1018\<close> instead of returning to \<open>0x1000\<close>.
\<close>

theorem lifo_free_keeps_break:
  "map_option (\<lambda>(st, live). (brk st, live, head st, tail st, s_is_free (mem st 0x1000)))
      (run [Malloc 16, Free (Some 0x1018)] (heap0, []))
    = Some (0x1018, [], Some 0x1000, Some 0x1000, 1) \<and> brk heap0 = 0x1000"
  by (simp add: exec_simps)

section \<open>Live payloads\<close>

text \<open>
  Claim C7. Four calls on the empty list: \<open>p1 = malloc(16)\<close>, \<open>p2 = malloc(8)\<close>,
  \<open>free(p1)\<close>, \<open>p3 = malloc(32)\<close>. After the second call the break is \<open>0x1028\<close>, which is
  \<open>p1 + 16\<close>, so \<open>free(p1)\<close> takes the release path: it unlinks the tail, the record
  of \<open>p2\<close>, and moves the break back to \<open>0x1000\<close>. The last call grows the heap from there.
  The live blocks are then \<open>p2\<close> with bytes \<open>0x1030\<close> to \<open>0x1037\<close> and \<open>p3\<close> with bytes
  \<open>0x1018\<close> to \<open>0x1037\<close>.
\<close>

theorem live_payloads_overlap:
  "map_option snd (run [Malloc 16, Malloc 8, Free (Some 0x1018), Malloc 32] (heap0, []))
      = Some [(0x1030, 8), (0x1018, 32)] \<and> overlap (0x1030, 8) (0x1018, 32)"
  by (simp add: exec_simps overlap_def)

section \<open>Bytes\<close>

lemma byte_bit64:
  "bit (push_bit k (ucast (ucast (drop_bit k v) :: 8 word) :: 64 word)) n \<longleftrightarrow>
     k \<le> n \<and> n < k + 8 \<and> n < 64 \<and> bit (v :: 64 word) n"
  by (auto simp: bit_simps)

lemma byte_bit64_0:
  "bit (ucast (ucast v :: 8 word) :: 64 word) n \<longleftrightarrow> n < 8 \<and> bit (v :: 64 word) n"
  by (auto simp: bit_simps)

lemma load64_store64 [simp]: "load64 (store64 m a v) a = v"
proof (rule bit_eqI)
  fix n
  assume "possible_bit TYPE(64 word) n"
  then have n: "n < 64" by simp
  have "bit (load64 (store64 m a v) a) n \<longleftrightarrow>
     (n < 8 \<and> bit v n \<or>
      8 \<le> n \<and> n < 16 \<and> n < 64 \<and> bit v n \<or>
      16 \<le> n \<and> n < 24 \<and> n < 64 \<and> bit v n \<or>
      24 \<le> n \<and> n < 32 \<and> n < 64 \<and> bit v n \<or>
      32 \<le> n \<and> n < 40 \<and> n < 64 \<and> bit v n \<or>
      40 \<le> n \<and> n < 48 \<and> n < 64 \<and> bit v n \<or>
      48 \<le> n \<and> n < 56 \<and> n < 64 \<and> bit v n \<or> 56 \<le> n \<and> n < 64 \<and> bit v n)"
    by (simp add: load64_def store64_def bit_or_iff byte_bit64 byte_bit64_0)
  also have "\<dots> \<longleftrightarrow> bit v n" using n by linarith
  finally show "bit (load64 (store64 m a v) a) n = bit v n" .
qed

lemma byte_bit32:
  "bit (push_bit k (ucast (ucast (drop_bit k v) :: 8 word) :: 32 word)) n \<longleftrightarrow>
     k \<le> n \<and> n < k + 8 \<and> n < 32 \<and> bit (v :: 32 word) n"
  by (auto simp: bit_simps)

lemma byte_bit32_0:
  "bit (ucast (ucast v :: 8 word) :: 32 word) n \<longleftrightarrow> n < 8 \<and> bit (v :: 32 word) n"
  by (auto simp: bit_simps)

lemma load32_store32 [simp]: "load32 (store32 m a v) a = v"
proof (rule bit_eqI)
  fix n
  assume "possible_bit TYPE(32 word) n"
  then have n: "n < 32" by simp
  have "bit (load32 (store32 m a v) a) n \<longleftrightarrow>
     (n < 8 \<and> bit v n \<or>
      8 \<le> n \<and> n < 16 \<and> n < 32 \<and> bit v n \<or>
      16 \<le> n \<and> n < 24 \<and> n < 32 \<and> bit v n \<or> 24 \<le> n \<and> n < 32 \<and> bit v n)"
    by (simp add: load32_def store32_def bit_or_iff byte_bit32 byte_bit32_0)
  also have "\<dots> \<longleftrightarrow> bit v n" using n by linarith
  finally show "bit (load32 (store32 m a v) a) n = bit v n" .
qed



text \<open>Two ranges of bytes, \<open>k\<close> from \<open>b\<close> and \<open>n\<close> from \<open>a\<close>, that do not meet.\<close>

lemma uint_minus_word:
  fixes d :: "64 word"
  assumes "d \<noteq> 0"
  shows "uint (- d) = 2 ^ 64 - uint d"
proof -
  let ?M = "(2 :: int) ^ 64"
  from assms have "uint d \<noteq> 0" by (simp add: uint_0_iff)
  moreover have "0 \<le> uint d" by simp
  ultimately have D: "0 < uint d" by linarith
  have Dlt: "uint d < ?M" using uint_lt2p [of d] by simp
  have "uint (- d) = (- uint d) mod ?M" by (simp add: uint_word_ariths)
  also have "\<dots> = (?M - uint d) mod ?M"
    by (metis mod_add_self1 uminus_add_conv_diff add.commute)
  also have "\<dots> = ?M - uint d" using D Dlt by (intro mod_pos_pos_trivial) linarith+
  finally show ?thesis .
qed








section \<open>Headers that share no byte\<close>

lemma far_bytes:
  fixes d :: "64 word"
  assumes "24 \<le> d" and "24 \<le> - d" and "e < 24" and "o2 \<le> 16"
  shows "8 \<le> d + e - o2"
proof -
  let ?M = "(2 :: int) ^ 64"
  have M: "?M = 18446744073709551616" by simp
  from assms(1) have D: "24 \<le> uint d" by (simp add: word_le_def)
  then have "d \<noteq> 0" by auto
  from assms(2) have Dup: "uint d \<le> ?M - 24"
    by (simp add: word_le_def uint_minus_word [OF \<open>d \<noteq> 0\<close>])
  from assms(3) have E: "uint e < 24" by (simp add: word_less_def)
  have E0: "0 \<le> uint e" by simp
  from assms(4) have O: "uint o2 \<le> 16" by (simp add: word_le_def)
  have O0: "0 \<le> uint o2" by simp
  have "uint (d + e) = (uint d + uint e) mod ?M" by (simp add: uint_word_ariths)
  also have "\<dots> = uint d + uint e"
    using D Dup E E0 M by (intro mod_pos_pos_trivial) linarith+
  finally have de: "uint (d + e) = uint d + uint e" .
  have "uint (d + e - o2) = (uint (d + e) - uint o2) mod ?M" by (simp add: uint_word_ariths)
  also have "\<dots> = uint d + uint e - uint o2"
    unfolding de using D Dup E E0 O O0 M by (intro mod_pos_pos_trivial) linarith+
  finally have "uint (d + e - o2) = uint d + uint e - uint o2" .
  with D E0 O have "8 \<le> uint (d + e - o2)" by linarith
  then show ?thesis by (simp add: word_le_def)
qed


lemma far_diff1:
  assumes "far x h" and "e < 24" and "o2 \<le> 16" and "n \<le> 8"
  shows "n \<le> x + e - (h + o2)"
proof -
  from assms(1) have a: "24 \<le> x - h" and b: "24 \<le> - (x - h)"
    by (simp_all add: far_def sizeof_header_t_eq)
  have eq: "x + e - (h + o2) = (x - h) + e - o2" by simp
  have "8 \<le> x + e - (h + o2)" unfolding eq by (rule far_bytes [OF a b assms(2,3)])
  with assms(4) show ?thesis by (rule order_trans)
qed



lemma far_diff4: "far x h \<Longrightarrow> n \<le> 8 \<Longrightarrow> n \<le> x - h"
  using far_diff1 [of x h 0 0 n] by simp













section \<open>The members that the assignments leave alone\<close>

lemma set_size_fields [simp]:
  "brk (set_size h v st) = brk st" "brk_limit (set_size h v st) = brk_limit st"
  "head (set_size h v st) = head st" "tail (set_size h v st) = tail st"
  "lock_held (set_size h v st) = lock_held st" "lock_count (set_size h v st) = lock_count st"
  by (simp_all add: set_size_def)

lemma set_is_free_fields [simp]:
  "brk (set_is_free h v st) = brk st" "brk_limit (set_is_free h v st) = brk_limit st"
  "head (set_is_free h v st) = head st" "tail (set_is_free h v st) = tail st"
  "lock_held (set_is_free h v st) = lock_held st"
  "lock_count (set_is_free h v st) = lock_count st"
  by (simp_all add: set_is_free_def)

lemma set_next_fields [simp]:
  "brk (set_next h p st) = brk st" "brk_limit (set_next h p st) = brk_limit st"
  "head (set_next h p st) = head st" "tail (set_next h p st) = tail st"
  "lock_held (set_next h p st) = lock_held st" "lock_count (set_next h p st) = lock_count st"
  by (simp_all add: set_next_def)

lemma mem_cong: "bytes st' = bytes st \<Longrightarrow> mem st' = mem st"
  by (rule ext) (simp add: mem_def)

section \<open>The search reads the headers only\<close>

lemma get_free_block_loop_mem_le:
  "get_free_block_loop st sz p = Some r \<Longrightarrow> mem st' = mem st \<Longrightarrow>
   get_free_block_loop st' sz p = Some r"
proof (induction arbitrary: st' rule: get_free_block_loop_induct)
  case (1 loop s n p r)
  show ?case
  proof (cases p)
    case None
    with "1.hyps" show ?thesis by (subst get_free_block_loop.simps) simp
  next
    case (Some c)
    show ?thesis
    proof (cases "s_is_free (mem s c) \<noteq> 0 \<and> n \<le> s_size (mem s c)")
      case True
      with "1.hyps" "1.prems" Some show ?thesis
        by (subst get_free_block_loop.simps) auto
    next
      case False
      with "1.hyps" Some have a: "loop s n (s_next (mem s c)) = Some r" by simp
      from "1.IH"[OF a "1.prems"] False Some "1.prems" show ?thesis
        by (subst get_free_block_loop.simps) auto
    qed
  qed
qed

lemma get_free_block_loop_mem:
  assumes "mem st' = mem st"
  shows "get_free_block_loop st' sz p = get_free_block_loop st sz p"
proof (cases "get_free_block_loop st sz p")
  case (Some r)
  then show ?thesis using get_free_block_loop_mem_le[OF Some assms] by simp
next
  case None
  show ?thesis
  proof (cases "get_free_block_loop st' sz p")
    case None': None
    with None show ?thesis by simp
  next
    case (Some r)
    from get_free_block_loop_mem_le[OF Some assms[symmetric]] None show ?thesis by simp
  qed
qed

lemma get_free_block_cong:
  "mem st' = mem st \<Longrightarrow> head st' = head st \<Longrightarrow> get_free_block sz st' = get_free_block sz st"
  unfolding get_free_block_def by (simp add: get_free_block_loop_mem [of st' st])

lemma get_free_block_lock:
  "get_free_block sz (pthread_mutex_lock st) = get_free_block sz st"
  by (rule get_free_block_cong) (rule mem_cong, simp_all add: pthread_mutex_lock_def)

section \<open>Out of memory\<close>

lemma malloc_miss_fail:
  assumes "sz \<noteq> 0" and "get_free_block sz st = Some None"
    and "sbrk (sizeof_head_var + sz) (pthread_mutex_lock st) = (None, st2)"
  shows "malloc sz st = Some (None, pthread_mutex_unlock st2)"
  using assms by (simp add: malloc_def get_free_block_lock Let_def)

text \<open>
  Claim C8. A request of a positive size for which the search finds no block and \<open>sbrk\<close>
  refuses the extension returns \<open>NULL\<close>, and the break, \<open>head\<close>, \<open>tail\<close> and every header
  are as before the call.
\<close>

theorem malloc_out_of_memory:
  assumes "sz \<noteq> 0" and "get_free_block sz st = Some None"
    and "fst (sbrk (sizeof_head_var + sz) st) = None"
  shows "\<exists>st'. malloc sz st = Some (None, st') \<and> brk st' = brk st \<and> head st' = head st \<and>
               tail st' = tail st \<and> mem st' = mem st"
proof -
  from assms(3) have "sbrk (sizeof_head_var + sz) (pthread_mutex_lock st) = (None, pthread_mutex_lock st)"
    by (auto simp: sbrk_def pthread_mutex_lock_def split: if_splits)
  from malloc_miss_fail[OF assms(1,2) this]
  have m: "malloc sz st = Some (None, pthread_mutex_unlock (pthread_mutex_lock st))" .
  have "mem (pthread_mutex_unlock (pthread_mutex_lock st)) = mem st"
    by (rule mem_cong) (simp add: pthread_mutex_lock_def pthread_mutex_unlock_def)
  with m show ?thesis
    by (simp add: pthread_mutex_lock_def pthread_mutex_unlock_def)
qed

theorem malloc_out_of_memory_witness:
  "(16 :: size_t) \<noteq> 0 \<and> get_free_block 16 heap_full = Some None \<and>
   fst (sbrk (sizeof_head_var + 16) heap_full) = None \<and>
   (\<exists>st'. malloc 16 heap_full = Some (None, st') \<and> brk st' = brk heap_full \<and>
      head st' = head heap_full \<and> tail st' = tail heap_full \<and> mem st' = mem heap_full)"
proof -
  have a: "(16 :: size_t) \<noteq> 0" by simp
  have b: "get_free_block 16 heap_full = Some None"
    by (simp add: heap_full_def get_free_block_def get_free_block_loop.simps heap0_def)
  have c: "fst (sbrk (sizeof_head_var + 16) heap_full) = None"
    by (simp add: heap_full_def sbrk_def heap0_def sizeof_head_var_eq)
  from malloc_out_of_memory[OF a b c] a b c show ?thesis by blast
qed

section \<open>\<open>head\<close> and \<open>tail\<close> are null together\<close>

lemma free_loop_head_tail:
  "free_loop st tmp = Some st' \<Longrightarrow> head st' = head st \<and> (tail st' = tail st \<or> tail st' \<noteq> None)"
proof (induction rule: free_loop_induct)
  case (1 loop s p s')
  show ?case
  proof (cases p)
    case None
    with "1.hyps" show ?thesis by simp
  next
    case (Some t)
    show ?thesis
    proof (cases "s_next (mem s t) = tail s")
      case True
      let ?s1 = "(set_next t None s)\<lparr>tail := Some t\<rparr>"
      from True "1.hyps" Some have a: "loop ?s1 (s_next (mem ?s1 t)) = Some s'"
        by (simp add: Let_def)
      from "1.IH"[OF a] show ?thesis by auto
    next
      case False
      with "1.hyps" Some have a: "loop s (s_next (mem s t)) = Some s'" by simp
      from "1.IH"[OF a] show ?thesis .
    qed
  qed
qed

lemma malloc_head_tail:
  "malloc sz st = Some (p, st') \<Longrightarrow> (head st = None) = (tail st = None) \<Longrightarrow>
   (head st' = None) = (tail st' = None)"
  by (auto simp: malloc_def Let_def sbrk_def pthread_mutex_lock_def pthread_mutex_unlock_def
      split: if_splits option.splits prod.splits)

lemma free_head_tail:
  assumes "free p st = Some st'" and "(head st = None) = (tail st = None)"
  shows "(head st' = None) = (tail st' = None)"
proof (cases p)
  case None
  with assms show ?thesis by (simp add: free_def)
next
  case (Some b)
  let ?st2 = "pthread_mutex_lock st"
  let ?h = "b - sizeof_header_t"
  have sb: "sbrk 0 ?st2 = (Some (brk st), ?st2)"
    by (simp add: sbrk_def pthread_mutex_lock_def)
  show ?thesis
  proof (cases "b + s_size (mem ?st2 ?h) = brk st")
    case False
    with assms Some sb show ?thesis
      by (auto simp: free_def Let_def pthread_mutex_lock_def pthread_mutex_unlock_def)
  next
    case chk: True
    show ?thesis
    proof (cases "head st = tail st")
      case True
      with assms Some sb chk show ?thesis
        by (auto simp: free_def Let_def pthread_mutex_lock_def pthread_mutex_unlock_def sbrk_def
            split: if_splits)
    next
      case False
      with assms Some sb chk obtain st3 where
        l: "free_loop ?st2 (head ?st2) = Some st3" and
        r: "st' = pthread_mutex_unlock (snd (sbrk (0 - sizeof_header_t - s_size (mem st3 ?h)) st3))"
        by (auto simp: free_def Let_def pthread_mutex_lock_def split: option.splits prod.splits)
      from free_loop_head_tail[OF l] False assms(2)
      have "head st3 \<noteq> None \<and> tail st3 \<noteq> None"
        by (auto simp: pthread_mutex_lock_def)
      with r show ?thesis
        by (auto simp: sbrk_def pthread_mutex_unlock_def split: if_splits)
    qed
  qed
qed

text \<open>
  Claim C10. If \<open>head\<close> is \<open>NULL\<close> exactly when \<open>tail\<close> is, the same holds after any
  sequence of \<open>malloc\<close> and \<open>free\<close> calls that return, whatever pointers are passed to
  \<open>free\<close>. The empty list satisfies the hypothesis, so the property holds in every state
  reachable from it; \<open>malloc_head_tail\<close> and \<open>free_head_tail\<close> are the single steps,
  covering the appending path of \<open>malloc\<close> and the truncating path of \<open>free\<close>.
\<close>

theorem head_tail_invariant:
  assumes "(head st = None) = (tail st = None)" and "run cs (st, live) = Some (st', live')"
  shows "(head st' = None) = (tail st' = None)"
  using assms
proof (induction cs arbitrary: st live)
  case Nil
  then show ?case by simp
next
  case (Cons c cs)
  show ?case
  proof (cases c)
    case (Malloc n)
    with Cons.prems(2) obtain p st1 live1 where
      m: "malloc n st = Some (p, st1)" and r: "run cs (st1, live1) = Some (st', live')"
      by (auto split: option.splits)
    from Cons.IH[OF malloc_head_tail[OF m Cons.prems(1)] r] show ?thesis .
  next
    case (Free p)
    with Cons.prems(2) obtain st1 live1 where
      f: "free p st = Some st1" and r: "run cs (st1, live1) = Some (st', live')"
      by (auto split: option.splits)
    from Cons.IH[OF free_head_tail[OF f Cons.prems(1)] r] show ?thesis .
  qed
qed

theorem head_tail_invariant_witness:
  "(head heap0 = None) = (tail heap0 = None) \<and>
   (\<exists>st' live'. run [Malloc 16, Malloc 8, Free (Some 0x1018)] (heap0, []) = Some (st', live') \<and>
      (head st' = None) = (tail st' = None))"
proof -
  have a: "(head heap0 = None) = (tail heap0 = None)" by (simp add: heap0_def)
  have "run [Malloc 16, Malloc 8, Free (Some 0x1018)] (heap0, []) \<noteq> None"
    by (simp add: exec_simps)
  then obtain st' live' where
    r: "run [Malloc 16, Malloc 8, Free (Some 0x1018)] (heap0, []) = Some (st', live')"
    by auto
  have c: "(head st' = None) = (tail st' = None)"
    by (rule head_tail_invariant[OF a r])
  from r c have "\<exists>st' live'. run [Malloc 16, Malloc 8, Free (Some 0x1018)] (heap0, []) = Some (st', live') \<and>
      (head st' = None) = (tail st' = None)"
    by (intro exI conjI)
  with a show ?thesis by (rule conjI)
qed

section \<open>Chains of records\<close>






lemma list_from_cut:
  "list_from m p (ys @ q # zs) \<Longrightarrow> q \<notin> set ys \<Longrightarrow>
   list_from (m(q := (m q)\<lparr>s_next := None\<rparr>)) p (ys @ [q])"
  by (induction ys arbitrary: p) auto


section \<open>First fit\<close>


lemma get_free_block_loop_fits:
  "get_free_block_loop st sz p = Some (Some h) \<Longrightarrow> fits st sz h"
proof (induction st sz p "Some h" rule: get_free_block_loop_induct)
  case (1 loop s n p)
  show ?case
  proof (cases p)
    case None
    with "1.hyps"(2) show ?thesis by simp
  next
    case (Some c)
    show ?thesis
    proof (cases "s_is_free (mem s c) \<noteq> 0 \<and> n \<le> s_size (mem s c)")
      case True
      with "1.hyps"(2) Some show ?thesis by (auto simp: fits_def)
    next
      case False
      with "1.hyps"(2) Some have "loop s n (s_next (mem s c)) = Some (Some h)" by simp
      then show ?thesis by (rule "1.hyps"(1))
    qed
  qed
qed



lemma mem_lock [simp]:
  "mem (pthread_mutex_lock st) = mem st" "mem (pthread_mutex_unlock st) = mem st"
  by (rule mem_cong, simp add: pthread_mutex_lock_def pthread_mutex_unlock_def)+

lemma lock_fields [simp]:
  "brk (pthread_mutex_lock st) = brk st" "head (pthread_mutex_lock st) = head st"
  "tail (pthread_mutex_lock st) = tail st" "brk_limit (pthread_mutex_lock st) = brk_limit st"
  "brk (pthread_mutex_unlock st) = brk st" "head (pthread_mutex_unlock st) = head st"
  "tail (pthread_mutex_unlock st) = tail st" "brk_limit (pthread_mutex_unlock st) = brk_limit st"
  by (simp_all add: pthread_mutex_lock_def pthread_mutex_unlock_def)







section \<open>Deallocation\<close>

text \<open>
  Claim C4. Five calls on the empty list: \<open>malloc(16)\<close>, \<open>malloc(8)\<close>, \<open>free\<close> of the first
  block, \<open>malloc(48)\<close>, and \<open>free(0x1030)\<close>, the block of the second call, live until then.
  Before the last call \<open>head\<close> and \<open>tail\<close> are both the record at \<open>0x1000\<close>, in use for the
  block of 48 bytes, and the header \<open>0x1018\<close> of the block to free stores size 8, so its
  end \<open>0x1018 + 24 + 8\<close> is the break \<open>0x1038\<close>. The freed record is neither \<open>head\<close> nor
  \<open>tail\<close>; the claim then asks for the predecessor of \<open>tail\<close> to become \<open>tail\<close>. Line 153
  finds \<open>head == tail\<close> and sets both to \<open>NULL\<close>: the list loses the record of a live block
  and keeps no tail.
\<close>

theorem free_release_empties_list:
  "map_option (\<lambda>(st, live). (head st, tail st, brk st, s_size (mem st 0x1018), live))
     (run [Malloc 16, Malloc 8, Free (Some 0x1018), Malloc 48] (heap0, []))
     = Some (Some 0x1000, Some 0x1000, 0x1038, 8, [(0x1030, 8), (0x1018, 48)]) \<and>
   map_option (\<lambda>(st, live). (head st, tail st, brk st))
     (run [Malloc 16, Malloc 8, Free (Some 0x1018), Malloc 48, Free (Some 0x1030)] (heap0, []))
     = Some (None, None, 0x1018)"
  by (simp add: exec_simps)

section \<open>Reuse after deallocation\<close>

lemma mem_upd [simp]:
  "mem (st\<lparr>head := a\<rparr>) = mem st" "mem (st\<lparr>tail := a\<rparr>) = mem st"
  "mem (st\<lparr>brk := b\<rparr>) = mem st"
  by (rule mem_cong, simp)+

















lemma mem_lock_brk [simp]: "mem ((pthread_mutex_lock st)\<lparr>brk := b\<rparr>) = mem st"
  by (rule mem_cong) (simp add: pthread_mutex_lock_def)

lemma fits_cong:
  "s_is_free (mem st' x) = s_is_free (mem st x) \<Longrightarrow> s_size (mem st' x) = s_size (mem st x) \<Longrightarrow>
   fits st' M x = fits st M x"
  by (simp add: fits_def)




text \<open>The two states are the headers that runs of the allocator leave.\<close>

lemma heap_four_reached:
  "map_option (\<lambda>(st, live). (brk st, head st, tail st,
       map (mem st) [0x1000, 0x1018, 0x1038, 0x1060]))
     (run [Malloc 16, Malloc 24, Malloc 32, Malloc 40,
           Free (Some 0x1018), Free (Some 0x1050), Free (Some 0x1078)] (heap0, []))
   = Some (brk heap_four, head heap_four, tail heap_four,
       map (mem heap_four) [0x1000, 0x1018, 0x1038, 0x1060])"
  by (simp add: state_defs exec_simps)

lemma heap_free16_reached:
  "map_option (\<lambda>(st, live). (brk st, head st, tail st, mem st 0x1000))
     (run [Malloc 16, Free (Some 0x1018)] (heap0, []))
   = Some (brk heap_free16, head heap_free16, tail heap_free16, mem heap_free16 0x1000)"
  by (simp add: state_defs exec_simps)

end
